theory Spec2Isabelle
  imports Complex_Main "HOL-Library.Word"
begin

section \<open>Common conventions\<close>

text \<open>
  Two source modules are embedded: the KC SDR source
  (\<^verbatim>\<open>source_modules/kcsdr_source/src/main.cpp\<close>) and the SignalHound BB source
  (\<^verbatim>\<open>source_modules/signalhound_bb_source/src/main.cpp\<close>).

  Every handler of the control thread is a function from the instance's fields to the
  new fields together with the list of externally visible actions it performed, in
  program order: calls into the vendor SDK, calls on the \<^verbatim>\<open>dsp::stream\<close>, thread
  spawn and join, the sample-rate notification and the log lines. A log line is
  identified by its level and by the line of the source file where the \<^verbatim>\<open>flog\<close> call
  stands. Results of SDK calls are inputs of the model. Both classes have fields
  called \<^verbatim>\<open>running\<close>, \<^verbatim>\<open>freq\<close> and \<^verbatim>\<open>gain\<close>, so the record fields carry the prefix
  \<open>kc_\<close> or \<open>bb_\<close>.

  A C++ \<^verbatim>\<open>double\<close> or \<^verbatim>\<open>float\<close> field that the handlers only store, compare and
  pass on is represented by the real number it denotes.
\<close>

type_synonym double = real

definition double_to_uint64 :: "double \<Rightarrow> 64 word" where
  \<comment> \<open>conversion of a \<^verbatim>\<open>double\<close> to \<^verbatim>\<open>uint64_t\<close>: truncation towards zero
      (defined by C++ only when the truncated value fits)\<close>
  "double_to_uint64 x = word_of_int (if 0 \<le> x then \<lfloor>x\<rfloor> else - \<lfloor>- x\<rfloor>)"

section \<open>KC SDR source module: lifecycle controller\<close>

type_synonym sdr_obj_ptr = "nat option"  \<comment> \<open>\<^verbatim>\<open>sdr_obj*\<close>, \<open>None\<close> is \<^verbatim>\<open>nullptr\<close>\<close>

record kcsdr =
  kc_api :: bool                  \<comment> \<open>\<^verbatim>\<open>api != nullptr\<close>\<close>
  kc_currentDevice :: sdr_obj_ptr
  kc_running :: bool
  kc_run :: bool
  kc_workerThread :: bool         \<comment> \<open>\<^verbatim>\<open>workerThread.joinable()\<close>\<close>
  kc_sampleRate :: double
  kc_freq :: double
  kc_devId :: int
  kc_selectedPort :: "8 word"
  kc_att :: "8 word"
  kc_gain :: "8 word"
  kc_extGain :: "8 word"

datatype kc_event =
    ApiFind int                    \<comment> \<open>\<^verbatim>\<open>api->find(deviceTypes.value(devId))\<close>\<close>
  | RxPort sdr_obj_ptr "8 word"
  | RxFreq sdr_obj_ptr "64 word"
  | RxAtt sdr_obj_ptr "8 word"
  | RxAmp sdr_obj_ptr "8 word"
  | RxExtAmp sdr_obj_ptr "8 word"
  | RxBw sdr_obj_ptr "32 word"
  | RxStart sdr_obj_ptr
  | RxStop sdr_obj_ptr
  | KcSetInputSampleRate double    \<comment> \<open>\<^verbatim>\<open>core::setInputSampleRate\<close>\<close>
  | KcStopWriter                   \<comment> \<open>\<^verbatim>\<open>stream.stopWriter()\<close>\<close>
  | KcClearWriteStop               \<comment> \<open>\<^verbatim>\<open>stream.clearWriteStop()\<close>\<close>
  | KcSpawn                        \<comment> \<open>\<^verbatim>\<open>workerThread = std::thread(worker)\<close>\<close>
  | KcJoin                         \<comment> \<open>\<^verbatim>\<open>workerThread.join()\<close>\<close>
  | KcLogInfo nat
  | KcLogError nat

definition coreSetInputSampleRate :: "kcsdr \<Rightarrow> kc_event list" where
  "coreSetInputSampleRate s =
     [KcSetInputSampleRate (kc_sampleRate s),
      KcLogInfo 260]"

text \<open>
  \<^verbatim>\<open>start\<close>. The argument \<open>found\<close> is what \<^verbatim>\<open>api->find\<close> returns if it is called.
\<close>

definition kc_start :: "sdr_obj_ptr \<Rightarrow> kcsdr \<Rightarrow> kcsdr \<times> kc_event list" where
  "kc_start found s =
     (if kc_running s then (s, [])
      else if \<not> kc_api s then (s, [KcLogError 112])
      else
        (case (if kc_currentDevice s = None
               then (found, [ApiFind (kc_devId s)])
               else (kc_currentDevice s, [])) of
           (None, es) \<Rightarrow>
             (s\<lparr>kc_currentDevice := None\<rparr>,
              es @ [KcLogError 117])
         | (Some d, es) \<Rightarrow>
             (s\<lparr>kc_currentDevice := Some d, kc_run := True,
                kc_workerThread := True, kc_running := True\<rparr>,
              es @ [KcLogInfo 119,
                    RxPort (Some d) (kc_selectedPort s),
                    RxFreq (Some d) (double_to_uint64 (kc_freq s)),
                    RxAtt (Some d) (kc_att s),
                    RxAmp (Some d) (kc_gain s),
                    RxExtAmp (Some d) (kc_extGain s),
                    RxBw (Some d) (ucast (double_to_uint64 (kc_sampleRate s)))]
                 @ coreSetInputSampleRate s
                 @ [KcLogInfo 130,
                    RxStart (Some d),
                    KcSpawn,
                    KcLogInfo 136])))"

definition kc_stop :: "kcsdr \<Rightarrow> kcsdr \<times> kc_event list" where
  "kc_stop s =
     (if \<not> kc_running s \<and> \<not> kc_run s then (s, [])
      else
        (s\<lparr>kc_run := False, kc_workerThread := False, kc_running := False\<rparr>,
         (case kc_currentDevice s of
            Some d \<Rightarrow> if kc_api s
                      then [KcLogInfo 148, RxStop (Some d)]
                      else []
          | None \<Rightarrow> [])
         @ [KcStopWriter]
         @ (if kc_workerThread s then [KcJoin] else [])
         @ [KcClearWriteStop, KcLogInfo 165]))"

text \<open>
  \<^verbatim>\<open>tune\<close> calls through \<^verbatim>\<open>api\<close> without testing it; \<^verbatim>\<open>running\<close> is only ever set by
  a \<^verbatim>\<open>start\<close> that found \<^verbatim>\<open>api\<close> and a device (invariant \<open>kc_inv\<close> below).
\<close>

definition kc_tune :: "double \<Rightarrow> kcsdr \<Rightarrow> kcsdr \<times> kc_event list" where
  "kc_tune f s =
     (s\<lparr>kc_freq := f\<rparr>,
      (if kc_running s
       then [RxFreq (kc_currentDevice s) (double_to_uint64 f)]
       else []))"

section \<open>SignalHound BB source module: lifecycle controller\<close>

record signalhound =
  bb_running :: bool
  bb_rxThread :: bool             \<comment> \<open>\<^verbatim>\<open>rxThread.joinable()\<close>\<close>
  bb_deviceHandle :: int
  bb_freq :: double
  bb_selectedSerial :: int
  bb_decimationId :: int
  bb_bandwidthHz :: real          \<comment> \<open>a \<^verbatim>\<open>float\<close>\<close>
  bb_refLevel :: real             \<comment> \<open>a \<^verbatim>\<open>float\<close>\<close>
  bb_gain :: int
  bb_attenuation :: int
  bb_purgeIQ :: bool
  bb_actualSampleRate :: double

text \<open>
  The table \<^verbatim>\<open>maxBandwidths\<close> filled in by the constructor, indexed by
  \<^verbatim>\<open>decimationId\<close>. Every entry is a whole number of Hz that a \<^verbatim>\<open>float\<close> holds
  exactly (an integer below \<open>2 ^ 24\<close>, or an even integer below \<open>2 ^ 25\<close>), so storing an
  entry in the \<^verbatim>\<open>float\<close> field \<^verbatim>\<open>bandwidthHz\<close> does not round.
\<close>

definition maxBandwidths :: "real list" where
  "maxBandwidths =
     [27000000, 17800000, 8000000, 3750000, 2000000, 1000000, 500000,
      250000, 140000, 65000, 30000, 15000, 8000, 4000]"

text \<open>
  The replies of the vendor SDK to the calls that one run of \<^verbatim>\<open>start\<close> or of
  \<^verbatim>\<open>restartStreamWithNewParams\<close> can make; each call is made at most once per run.
  A \<^verbatim>\<open>bbStatus\<close> is an integer: negative for an error, positive for a warning.
\<close>

record bb_replies =
  open_status :: int
  open_handle :: int              \<comment> \<open>what the callee leaves in \<^verbatim>\<open>deviceHandle\<close>\<close>
  refLevel_status :: int
  gainAtten_status :: int
  iqCenter_status :: int
  configureIQ_status :: int
  initiate_status :: int
  query_status :: int
  query_sample_rate :: double
  query_bandwidth :: double

datatype bb_event =
    BbOpenDeviceBySerialNumber int
  | BbConfigureRefLevel int real
  | BbConfigureGainAtten int int int
  | BbConfigureIQCenter int double
  | BbConfigureIQ int int real
  | BbInitiate int                 \<comment> \<open>with \<^verbatim>\<open>BB_STREAMING, BB_STREAM_IQ\<close>\<close>
  | BbQueryIQParameters int
  | BbAbort int
  | BbCloseDevice int
  | BbSetInputSampleRate double    \<comment> \<open>\<^verbatim>\<open>core::setInputSampleRate\<close>\<close>
  | BbStopWriter
  | BbClearWriteStop
  | BbSpawn                        \<comment> \<open>\<^verbatim>\<open>rxThread = std::thread(rx_thread_func)\<close>\<close>
  | BbJoin
  | BbLogInfo nat
  | BbLogWarn nat
  | BbLogError nat

text \<open>
  \<^verbatim>\<open>check_status\<close>: whether the status is not an error, and the line it logs. Its
  second argument, the name of the call, only goes into the text of that line.
\<close>

definition check_status :: "int \<Rightarrow> bool \<times> bb_event list" where
  "check_status status =
     (if status < 0 then (False, [BbLogError 179])
      else if status > 0 then (True, [BbLogWarn 184])
      else (True, []))"

text \<open>
  The condition \<^verbatim>\<open>!check_status(a(), ..) || !check_status(b(), ..) || ...\<close>: the calls
  are made from left to right until the first one whose status is an error. The
  result is \<open>True\<close> when no call failed.
\<close>

fun check_all :: "(bb_event \<times> int) list \<Rightarrow> bool \<times> bb_event list" where
  "check_all [] = (True, [])"
| "check_all ((call, status) # rest) =
     (case check_status status of
        (False, lg) \<Rightarrow> (False, call # lg)
      | (True, lg) \<Rightarrow>
          (case check_all rest of (ok, es) \<Rightarrow> (ok, call # lg @ es)))"

definition bb_configure ::
  "bb_replies \<Rightarrow> signalhound \<Rightarrow> int \<Rightarrow> bool \<times> bb_event list" where
  "bb_configure r s decimation =
     check_all
       [(BbConfigureRefLevel (bb_deviceHandle s) (bb_refLevel s), refLevel_status r),
        (BbConfigureGainAtten (bb_deviceHandle s) (bb_gain s) (bb_attenuation s), gainAtten_status r),
        (BbConfigureIQCenter (bb_deviceHandle s) (bb_freq s), iqCenter_status r),
        (BbConfigureIQ (bb_deviceHandle s) decimation (bb_bandwidthHz s), configureIQ_status r)]"

text \<open>
  \<^verbatim>\<open>start\<close>. The result is \<open>None\<close> where the C++ has no defined behaviour: the
  index \<^verbatim>\<open>decimationId\<close> is outside \<^verbatim>\<open>maxBandwidths\<close>.
\<close>

definition bb_start :: "bb_replies \<Rightarrow> signalhound \<Rightarrow> (signalhound \<times> bb_event list) option" where
  "bb_start r s =
     (if bb_running s \<or> bb_selectedSerial s = 0 then Some (s, [])
      else
        (case check_status (open_status r) of (ok, lg) \<Rightarrow>
         let s1 = s\<lparr>bb_deviceHandle := open_handle r\<rparr>;
             h = open_handle r;
             es0 = [BbLogInfo 202,
                    BbOpenDeviceBySerialNumber (bb_selectedSerial s)] @ lg
         in
         if \<not> ok then Some (s1, es0)
         else if \<not> (0 \<le> bb_decimationId s \<and> bb_decimationId s < int (length maxBandwidths))
         then None
         else
           let decimation = (2::int) ^ nat (bb_decimationId s);
               minBandwidth = 200;
               maxBandwidth = maxBandwidths ! nat (bb_decimationId s);
               bw1 = (if bb_bandwidthHz s < minBandwidth then minBandwidth
                      else bb_bandwidthHz s);
               w1 = (if bb_bandwidthHz s < minBandwidth
                     then [BbLogWarn 218]
                     else []);
               bw2 = (if bw1 > maxBandwidth then maxBandwidth else bw1);
               w2 = (if bw1 > maxBandwidth
                     then [BbLogWarn 223]
                     else []);
               s2 = s1\<lparr>bb_bandwidthHz := bw2\<rparr>;
               es1 = es0 @ w1 @ w2 @
                     [BbLogInfo 228]
           in
           (case bb_configure r s2 decimation of (okc, ec) \<Rightarrow>
            if \<not> okc
            then Some (s2\<lparr>bb_deviceHandle := - 1\<rparr>, es1 @ ec @ [BbCloseDevice h])
            else
              (case check_status (initiate_status r) of (oki, li) \<Rightarrow>
               if \<not> oki
               then Some (s2\<lparr>bb_deviceHandle := - 1\<rparr>,
                          es1 @ ec @ [BbInitiate h] @ li @ [BbCloseDevice h])
               else
                 (case check_status (query_status r) of (okq, lq) \<Rightarrow>
                  if \<not> okq
                  then Some (s2\<lparr>bb_deviceHandle := - 1\<rparr>,
                             es1 @ ec @ [BbInitiate h] @ li @ [BbQueryIQParameters h] @ lq
                               @ [BbAbort h, BbCloseDevice h])
                  else
                    Some (s2\<lparr>bb_actualSampleRate := query_sample_rate r,
                              bb_running := True, bb_rxThread := True\<rparr>,
                          es1 @ ec @ [BbInitiate h] @ li @ [BbQueryIQParameters h] @ lq
                            @ [BbLogInfo 259,
                               BbSetInputSampleRate (query_sample_rate r),
                               BbSpawn,
                               BbLogInfo 268]))))))"

definition bb_stop :: "signalhound \<Rightarrow> signalhound \<times> bb_event list" where
  "bb_stop s =
     (if \<not> bb_running s then (s, [])
      else
        (s\<lparr>bb_running := False, bb_rxThread := False, bb_deviceHandle := - 1\<rparr>,
         [BbLogInfo 275, BbStopWriter]
         @ (if bb_rxThread s then [BbJoin] else [])
         @ (if bb_deviceHandle s \<noteq> - 1
            then [BbAbort (bb_deviceHandle s), BbCloseDevice (bb_deviceHandle s)]
            else [])
         @ [BbClearWriteStop, BbLogInfo 291]))"

text \<open>\<^verbatim>\<open>restartStreamWithNewParams\<close>; \<open>None\<close> as for \<open>bb_start\<close>.\<close>

definition restartStreamWithNewParams ::
  "bb_replies \<Rightarrow> signalhound \<Rightarrow> (signalhound \<times> bb_event list) option" where
  "restartStreamWithNewParams r s =
     (if \<not> bb_running s \<or> bb_deviceHandle s = - 1 then Some (s, [])
      else
        let h = bb_deviceHandle s;
            s1 = s\<lparr>bb_running := False, bb_rxThread := False\<rparr>;
            es0 = [BbLogInfo 306, BbStopWriter]
                  @ (if bb_rxThread s then [BbJoin] else [])
                  @ [BbAbort h]
        in
        if \<not> (0 \<le> bb_decimationId s \<and> bb_decimationId s < int (length maxBandwidths))
        then None
        else
          let decimation = (2::int) ^ nat (bb_decimationId s);
              minBandwidth = 200;
              maxBandwidth = maxBandwidths ! nat (bb_decimationId s);
              bw1 = (if bb_bandwidthHz s < minBandwidth then minBandwidth
                     else bb_bandwidthHz s);
              bw2 = (if bw1 > maxBandwidth then maxBandwidth else bw1);
              s2 = s1\<lparr>bb_bandwidthHz := bw2\<rparr>
          in
          (case bb_configure r s2 decimation of (okc, ec) \<Rightarrow>
           if \<not> okc
           then Some (s2, es0 @ ec @
                      [BbLogError 337])
           else
             (case check_status (initiate_status r) of (oki, li) \<Rightarrow>
              if \<not> oki
              then Some (s2, es0 @ ec @ [BbInitiate h] @ li @
                         [BbLogError 343])
              else
                (case check_status (query_status r) of
                   (okq, lq) \<Rightarrow>
                   Some ((if okq then s2\<lparr>bb_actualSampleRate := query_sample_rate r\<rparr> else s2)
                           \<lparr>bb_running := True, bb_rxThread := True\<rparr>,
                         es0 @ ec @ [BbInitiate h] @ li @ [BbQueryIQParameters h] @ lq
                           @ (if okq
                              then [BbSetInputSampleRate (query_sample_rate r),
                                    BbLogInfo 352]
                              else [])
                           @ [BbClearWriteStop, BbSpawn])))))"


section \<open>Single-precision arithmetic\<close>

text \<open>
  The KC SDR worker computes in \<^verbatim>\<open>float\<close>. A finite \<^verbatim>\<open>float\<close> is represented by
  the real number it denotes, and every \<^verbatim>\<open>float\<close> operation is the exact operation
  followed by IEEE 754 binary32 rounding to nearest, ties to even: the result is a
  multiple of the unit in the last place \<open>2 ^ (e - 23)\<close>, where \<open>e\<close> is the binary
  exponent of the exact value, at least \<open>- 126\<close> (below that the values are subnormal
  and share the exponent \<open>- 126\<close>). Exact values of magnitude \<open>2 ^ 128\<close> or more, which
  round to an infinity, are outside the model; the worker's values stay below 2.
  Expressions of type \<^verbatim>\<open>float\<close> are taken to be evaluated in single precision.
\<close>

type_synonym float32 = real

definition round_half_even :: "real \<Rightarrow> int" where
  "round_half_even x =
     (let f = \<lfloor>x\<rfloor>; d = x - of_int f
      in if d < 1 / 2 then f
         else if d > 1 / 2 then f + 1
         else if even f then f else f + 1)"

definition float32_exponent :: "real \<Rightarrow> int" where
  "float32_exponent x =
     (case find (\<lambda>e. \<bar>x\<bar> < 2 powi (e + 1)) [- 126 .. 127] of
        Some e \<Rightarrow> e
      | None \<Rightarrow> 127)"

definition float32_round :: "real \<Rightarrow> float32" where
  "float32_round x =
     (let ulp = 2 powi (float32_exponent x - 23)
      in of_int (round_half_even (x / ulp)) * ulp)"

section \<open>KC SDR source module: acquisition worker\<close>

definition SAMPLES_PER_READ :: nat where
  "SAMPLES_PER_READ = 16384"

definition scale :: float32 where
  \<comment> \<open>\<^verbatim>\<open>float scale = 1.0f / 32767.0f\<close>\<close>
  "scale = float32_round (1 / 32767)"

definition normalize :: "16 word \<Rightarrow> float32" where
  \<comment> \<open>\<^verbatim>\<open>readBuffer[k] * scale\<close>: the \<^verbatim>\<open>int16_t\<close> is converted to \<^verbatim>\<open>float\<close>, which is
      exact for a 16-bit value, and multiplied in \<^verbatim>\<open>float\<close>\<close>
  "normalize raw = float32_round (of_int (sint raw) * scale)"

type_synonym complex_t = "float32 \<times> float32"  \<comment> \<open>\<^verbatim>\<open>re\<close>, \<^verbatim>\<open>im\<close>\<close>

text \<open>
  The conversion loop over \<^verbatim>\<open>readBuffer\<close>, a vector of \<open>2 * SAMPLES_PER_READ\<close> values
  of type \<^verbatim>\<open>int16_t\<close>, given as the function from an index to the value stored there.
\<close>

definition convert :: "(nat \<Rightarrow> 16 word) \<Rightarrow> complex_t list" where
  "convert readBuffer =
     map (\<lambda>i. (normalize (readBuffer (i * 2)), normalize (readBuffer (i * 2 + 1))))
       [0 ..< SAMPLES_PER_READ]"

text \<open>
  One pass through the body of \<^verbatim>\<open>while (run)\<close>. The worker shares \<^verbatim>\<open>run\<close>,
  \<^verbatim>\<open>currentDevice\<close>, the device and the stream with the control thread; what it
  observes of them during one pass is the input of that pass.
\<close>

record kc_pass =
  kp_run :: bool                           \<comment> \<open>\<^verbatim>\<open>run\<close> at the loop test\<close>
  kp_device :: bool                        \<comment> \<open>\<^verbatim>\<open>currentDevice != nullptr\<close>\<close>
  kp_read :: "(nat \<Rightarrow> 16 word) option"     \<comment> \<open>\<open>None\<close>: \<^verbatim>\<open>api->read\<close> returned false;
                                               otherwise the content of \<^verbatim>\<open>readBuffer\<close>\<close>
  kp_run_after :: bool                     \<comment> \<open>\<^verbatim>\<open>run\<close> when tested after a failed read\<close>
  kp_swap :: bool                          \<comment> \<open>the result of \<^verbatim>\<open>stream.swap\<close>\<close>

datatype loop_control = Next | Leave

datatype kc_worker_event =
    KwSleep                                \<comment> \<open>\<^verbatim>\<open>sleep_for(microseconds(100))\<close>\<close>
  | KwRead nat                             \<comment> \<open>\<^verbatim>\<open>api->read\<close> of that many bytes\<close>
  | KwSwap nat "complex_t list"            \<comment> \<open>\<^verbatim>\<open>stream.swap(count)\<close> and what was written
                                               to \<^verbatim>\<open>writeBuf\<close> before it\<close>
  | KwLogInfo nat

definition BYTES_PER_READ :: nat where
  \<comment> \<open>\<^verbatim>\<open>SAMPLES_PER_READ * 2 * sizeof(int16_t)\<close>\<close>
  "BYTES_PER_READ = SAMPLES_PER_READ * 2 * 2"

definition kc_worker_pass :: "kc_pass \<Rightarrow> loop_control \<times> kc_worker_event list" where
  "kc_worker_pass p =
     (if \<not> kp_run p then (Leave, [])
      else if \<not> kp_device p then (Next, [KwSleep])
      else
        (case kp_read p of
           None \<Rightarrow>
             (if \<not> kp_run_after p then (Leave, [KwRead BYTES_PER_READ])
              else (Next, [KwRead BYTES_PER_READ]))
         | Some readBuffer \<Rightarrow>
             (if \<not> kp_swap p
              then (Leave, [KwRead BYTES_PER_READ, KwSwap SAMPLES_PER_READ (convert readBuffer)])
              else (Next, [KwRead BYTES_PER_READ, KwSwap SAMPLES_PER_READ (convert readBuffer)]))))"

text \<open>
  The loop, run on the observations of its successive passes. The first component
  tells whether the loop was left; it is \<open>False\<close> when the worker is still inside the
  loop after the last pass given.
\<close>

fun kc_worker_loop :: "kc_pass list \<Rightarrow> bool \<times> kc_worker_event list" where
  "kc_worker_loop [] = (False, [])"
| "kc_worker_loop (p # ps) =
     (case kc_worker_pass p of
        (Leave, es) \<Rightarrow> (True, es)
      | (Next, es) \<Rightarrow> (case kc_worker_loop ps of (left, es') \<Rightarrow> (left, es @ es')))"

definition kc_worker :: "kc_pass list \<Rightarrow> bool \<times> kc_worker_event list" where
  "kc_worker ps =
     (case kc_worker_loop ps of
        (left, es) \<Rightarrow>
          (left, [KwLogInfo 222] @ es
                 @ (if left then [KwLogInfo 255] else [])))"

section \<open>SignalHound BB source module: receive thread\<close>

definition bufferSize :: int where
  "bufferSize = 16384"

record bb_pass =
  bp_running :: bool                       \<comment> \<open>\<^verbatim>\<open>running.load()\<close> at the loop test\<close>
  bp_deviceHandle :: int
  bp_status :: int                         \<comment> \<open>the result of \<^verbatim>\<open>bbGetIQ\<close>\<close>
  bp_iqCount :: int                        \<comment> \<open>\<^verbatim>\<open>pkt.iqCount\<close> after the call\<close>
  bp_sampleLoss :: bool                    \<comment> \<open>\<^verbatim>\<open>pkt.sampleLoss\<close> after the call\<close>
  bp_swap :: bool                          \<comment> \<open>the result of \<^verbatim>\<open>stream.swap\<close>\<close>

datatype bb_worker_event =
    BwGetIQ int bool                       \<comment> \<open>\<^verbatim>\<open>bbGetIQ(deviceHandle, &pkt)\<close> and \<^verbatim>\<open>pkt.purge\<close>\<close>
  | BwSleep nat                            \<comment> \<open>\<^verbatim>\<open>sleep_for(milliseconds(n))\<close>\<close>
  | BwSwap int                             \<comment> \<open>\<^verbatim>\<open>stream.swap(pkt.iqCount)\<close>\<close>
  | BwLogWarn nat
  | BwLogError nat

text \<open>
  One pass through the body of \<^verbatim>\<open>while (_this->running.load())\<close>. The status codes
  \<^verbatim>\<open>bbNoError\<close> and \<^verbatim>\<open>bbDeviceNotStreamingErr\<close> come from the vendor header
  \<^verbatim>\<open>bb_api.h\<close> and are parameters. The flag \<^verbatim>\<open>purgeIQ\<close> is read and cleared by the
  pass: it is an argument and the second component of the result.
\<close>

definition rx_thread_pass ::
  "int \<Rightarrow> int \<Rightarrow> bb_pass \<Rightarrow> bool \<Rightarrow> loop_control \<times> bool \<times> bb_worker_event list" where
  "rx_thread_pass bbNoError bbDeviceNotStreamingErr p purgeIQ =
     (if \<not> bp_running p then (Leave, purgeIQ, [])
      else
        let get = BwGetIQ (bp_deviceHandle p) purgeIQ
        in
        if bp_status p \<noteq> bbNoError
        then
          (if bp_status p = bbDeviceNotStreamingErr
           then (Next, False,
                 [get, BwLogWarn 546,
                  BwSleep 10])
           else (Leave, False,
                 [get, BwLogError 550]))
        else if bp_iqCount p > 0
        then
          (if bp_iqCount p \<le> bufferSize
           then
             (if \<not> bp_swap p then (Leave, False, [get, BwSwap (bp_iqCount p)])
              else (Next, False,
                    [get, BwSwap (bp_iqCount p)]
                    @ (if bp_sampleLoss p
                       then [BwLogWarn 570] else [])))
           else (Next, False,
                 [get, BwLogWarn 564]
                 @ (if bp_sampleLoss p
                    then [BwLogWarn 570] else [])))
        else (Next, False, [get, BwSleep 1]))"

section \<open>Sequences of control events and properties of action lists\<close>

text \<open>
  The control events that the source manager can deliver to a KC SDR instance, and a
  sequence of them run from a given instance state. \<open>Start found\<close> carries what
  \<^verbatim>\<open>api->find\<close> returns during that call.
\<close>

datatype kc_control = Start sdr_obj_ptr | Stop | Tune double

fun kc_call :: "kc_control \<Rightarrow> kcsdr \<Rightarrow> kcsdr \<times> kc_event list" where
  "kc_call (Start found) s = kc_start found s"
| "kc_call Stop s = kc_stop s"
| "kc_call (Tune f) s = kc_tune f s"

fun kc_calls :: "kc_control list \<Rightarrow> kcsdr \<Rightarrow> kcsdr \<times> kc_event list" where
  "kc_calls [] s = (s, [])"
| "kc_calls (c # cs) s =
     (case kc_call c s of
        (s', es) \<Rightarrow> (case kc_calls cs s' of (s'', es') \<Rightarrow> (s'', es @ es')))"

text \<open>
  The state the constructor leaves: not running, no thread, no device; \<^verbatim>\<open>api\<close> and the
  configuration fields are whatever \<^verbatim>\<open>kcsdr_init\<close> and \<^verbatim>\<open>loadConfig\<close> produced.
\<close>

definition kc_constructed :: "kcsdr \<Rightarrow> bool" where
  "kc_constructed s \<longleftrightarrow>
     \<not> kc_running s \<and> \<not> kc_run s \<and> \<not> kc_workerThread s \<and> kc_currentDevice s = None"

definition kc_inv :: "kcsdr \<Rightarrow> bool" where
  "kc_inv s \<longleftrightarrow>
     kc_run s = kc_running s \<and> kc_workerThread s = kc_running s \<and>
     (kc_running s \<longrightarrow> kc_api s \<and> kc_currentDevice s \<noteq> None)"

text \<open>The shutdown steps among the actions of a handler, in the order performed.\<close>

fun kc_shutdown_step :: "kc_event \<Rightarrow> bool" where
  "kc_shutdown_step (RxStop d) = True"
| "kc_shutdown_step KcStopWriter = True"
| "kc_shutdown_step KcJoin = True"
| "kc_shutdown_step KcClearWriteStop = True"
| "kc_shutdown_step e = False"

fun bb_shutdown_step :: "bb_event \<Rightarrow> bool" where
  "bb_shutdown_step (BbAbort h) = True"
| "bb_shutdown_step (BbCloseDevice h) = True"
| "bb_shutdown_step BbStopWriter = True"
| "bb_shutdown_step BbJoin = True"
| "bb_shutdown_step BbClearWriteStop = True"
| "bb_shutdown_step e = False"

text \<open>\<open>precedes a b es\<close>: \<open>a\<close> occurs in \<open>es\<close>, and \<open>b\<close> occurs after its first occurrence.\<close>

definition precedes :: "'a \<Rightarrow> 'a \<Rightarrow> 'a list \<Rightarrow> bool" where
  "precedes a b es \<longleftrightarrow> b \<in> set (drop 1 (dropWhile (\<lambda>e. e \<noteq> a) es))"

text \<open>A running SignalHound BB instance, as a successful \<^verbatim>\<open>start\<close> leaves it.\<close>

definition bb_running_example :: signalhound where
  "bb_running_example =
     \<lparr>bb_running = True, bb_rxThread = True, bb_deviceHandle = 0, bb_freq = 100000000,
      bb_selectedSerial = 12345, bb_decimationId = 6, bb_bandwidthHz = 500000,
      bb_refLevel = - 20, bb_gain = - 1, bb_attenuation = - 1, bb_purgeIQ = False,
      bb_actualSampleRate = 625000\<rparr>"

text \<open>A KC SDR instance as the constructor leaves it with the default configuration.\<close>

definition kc_constructed_example :: kcsdr where
  "kc_constructed_example =
     \<lparr>kc_api = True, kc_currentDevice = None, kc_running = False, kc_run = False,
      kc_workerThread = False, kc_sampleRate = 10000000, kc_freq = 100000000,
      kc_devId = 0, kc_selectedPort = 1, kc_att = 0, kc_gain = 15, kc_extGain = 1\<rparr>"

text \<open>
  Replies of a SignalHound BB device that accepts every call and reports the rate of
  decimation 64, and replies of one that rejects the reference level.
\<close>

definition bb_replies_ok :: bb_replies where
  "bb_replies_ok =
     \<lparr>open_status = 0, open_handle = 0, refLevel_status = 0, gainAtten_status = 0,
      iqCenter_status = 0, configureIQ_status = 0, initiate_status = 0, query_status = 0,
      query_sample_rate = 625000, query_bandwidth = 500000\<rparr>"

definition bb_replies_reject :: bb_replies where
  "bb_replies_reject = bb_replies_ok\<lparr>refLevel_status := - 1\<rparr>"

text \<open>
  The spawn/join counter: \<open>alive_peak n es\<close> is the largest number of worker threads
  that are spawned and not yet joined at any point of the action list \<open>es\<close>, when \<open>n\<close>
  are alive at its start; \<open>alive_delta es\<close> is the change over the whole list.
\<close>

fun alive_peak :: "int \<Rightarrow> kc_event list \<Rightarrow> int" where
  "alive_peak n [] = n"
| "alive_peak n (KcSpawn # es) = max n (alive_peak (n + 1) es)"
| "alive_peak n (KcJoin # es) = max n (alive_peak (n - 1) es)"
| "alive_peak n (e # es) = alive_peak n es"

fun alive_delta :: "kc_event list \<Rightarrow> int" where
  "alive_delta [] = 0"
| "alive_delta (KcSpawn # es) = alive_delta es + 1"
| "alive_delta (KcJoin # es) = alive_delta es - 1"
| "alive_delta (e # es) = alive_delta es"

text \<open>A SignalHound BB instance that is not running, with a bandwidth above the 500 kHz
  that its decimation allows.\<close>

definition bb_stopped_example :: signalhound where
  "bb_stopped_example =
     \<lparr>bb_running = False, bb_rxThread = False, bb_deviceHandle = - 1, bb_freq = 100000000,
      bb_selectedSerial = 12345, bb_decimationId = 6, bb_bandwidthHz = 600000,
      bb_refLevel = - 20, bb_gain = - 1, bb_attenuation = - 1, bb_purgeIQ = False,
      bb_actualSampleRate = 625000\<rparr>"

text \<open>
  A SignalHound BB instance constructed while no device was attached: no serial number
  is selected.
\<close>

definition bb_no_device_example :: signalhound where
  "bb_no_device_example = bb_stopped_example\<lparr>bb_selectedSerial := 0\<rparr>"

text \<open>
  \<open>restart_ok r\<close>: the device accepts the four configuration calls and \<^verbatim>\<open>bbInitiate\<close>;
  \<open>start_ok r\<close>: it also accepts the open and the query of the stream parameters.
\<close>

definition restart_ok :: "bb_replies \<Rightarrow> bool" where
  "restart_ok r \<longleftrightarrow>
     0 \<le> refLevel_status r \<and> 0 \<le> gainAtten_status r \<and> 0 \<le> iqCenter_status r \<and>
     0 \<le> configureIQ_status r \<and> 0 \<le> initiate_status r"

definition start_ok :: "bb_replies \<Rightarrow> bool" where
  "start_ok r \<longleftrightarrow>
     0 \<le> open_status r \<and> 0 \<le> refLevel_status r \<and> 0 \<le> gainAtten_status r \<and>
     0 \<le> iqCenter_status r \<and> 0 \<le> configureIQ_status r \<and> 0 \<le> initiate_status r \<and>
     0 \<le> query_status r"

text \<open>The number of worker threads of an instance that are spawned and not joined.\<close>

definition kc_alive :: "kcsdr \<Rightarrow> int" where
  "kc_alive s = (if kc_workerThread s then 1 else 0)"

text \<open>
  The conditions under which one pass leaves the loop: the loop test fails, or
  (KC SDR) the read failed and \<^verbatim>\<open>run\<close> is found cleared, or \<^verbatim>\<open>swap\<close> returned false;
  (SignalHound BB) the status is neither \<^verbatim>\<open>bbNoError\<close> nor
  \<^verbatim>\<open>bbDeviceNotStreamingErr\<close>, or \<^verbatim>\<open>swap\<close> returned false.
\<close>

definition kc_leave :: "kc_pass \<Rightarrow> bool" where
  "kc_leave p \<longleftrightarrow>
     \<not> kp_run p \<or>
     kp_device p \<and> kp_read p = None \<and> \<not> kp_run_after p \<or>
     kp_device p \<and> kp_read p \<noteq> None \<and> \<not> kp_swap p"

definition bb_leave :: "int \<Rightarrow> int \<Rightarrow> bb_pass \<Rightarrow> bool" where
  "bb_leave bbNoError bbDeviceNotStreamingErr p \<longleftrightarrow>
     \<not> bp_running p \<or>
     bp_status p \<noteq> bbNoError \<and> bp_status p \<noteq> bbDeviceNotStreamingErr \<or>
     bp_status p = bbNoError \<and> 0 < bp_iqCount p \<and> bp_iqCount p \<le> bufferSize \<and> \<not> bp_swap p"

text \<open>
  Observations of single passes: a KC SDR read that times out while \<^verbatim>\<open>run\<close> stays set,
  a SignalHound BB read that fails with status \<open>- 15\<close> while \<^verbatim>\<open>running\<close> is set, and a
  KC SDR read that succeeds.
\<close>

definition kc_pass_timeout :: kc_pass where
  "kc_pass_timeout =
     \<lparr>kp_run = True, kp_device = True, kp_read = None, kp_run_after = True, kp_swap = True\<rparr>"

definition bb_pass_usb_timeout :: bb_pass where
  "bb_pass_usb_timeout =
     \<lparr>bp_running = True, bp_deviceHandle = 0, bp_status = - 15, bp_iqCount = 16384,
      bp_sampleLoss = False, bp_swap = True\<rparr>"

definition kc_pass_data :: kc_pass where
  "kc_pass_data =
     \<lparr>kp_run = True, kp_device = True, kp_read = Some (\<lambda>k. word_of_nat k),
      kp_run_after = True, kp_swap = True\<rparr>"

section \<open>Invariant of the KC SDR lifecycle controller\<close>

lemma kc_constructed_inv: "kc_constructed s \<Longrightarrow> kc_inv s"
  by (simp add: kc_constructed_def kc_inv_def)

lemma kc_start_inv: "kc_inv s \<Longrightarrow> kc_inv (fst (kc_start found s))"
  by (auto simp: kc_inv_def kc_start_def split: option.splits)

lemma kc_stop_inv: "kc_inv s \<Longrightarrow> kc_inv (fst (kc_stop s))"
  by (auto simp: kc_inv_def kc_stop_def)

lemma kc_tune_inv: "kc_inv s \<Longrightarrow> kc_inv (fst (kc_tune f s))"
  by (auto simp: kc_inv_def kc_tune_def)

lemma kc_call_inv: "kc_inv s \<Longrightarrow> kc_inv (fst (kc_call c s))"
  by (cases c) (simp_all add: kc_start_inv kc_stop_inv kc_tune_inv)

lemma kc_calls_Cons_fst:
  "fst (kc_calls (c # cs) s) = fst (kc_calls cs (fst (kc_call c s)))"
  by (simp split: prod.splits)

lemma kc_calls_Cons_snd:
  "snd (kc_calls (c # cs) s) = snd (kc_call c s) @ snd (kc_calls cs (fst (kc_call c s)))"
  by (simp split: prod.splits)

lemma kc_calls_inv: "kc_inv s \<Longrightarrow> kc_inv (fst (kc_calls cs s))"
proof (induction cs arbitrary: s)
  case Nil
  then show ?case by simp
next
  case (Cons c cs)
  from Cons.prems have "kc_inv (fst (kc_call c s))"
    by (rule kc_call_inv)
  then have "kc_inv (fst (kc_calls cs (fst (kc_call c s))))"
    by (rule Cons.IH)
  then show ?case
    by (simp only: kc_calls_Cons_fst)
qed

section \<open>Helper facts about the SignalHound BB configuration calls\<close>

lemma length_maxBandwidths: "length maxBandwidths = 14"
  by (simp add: maxBandwidths_def)

lemma check_status_fst: "fst (check_status st) \<longleftrightarrow> 0 \<le> st"
  by (simp add: check_status_def)

lemma check_status_snd:
  "set (snd (check_status st)) \<subseteq> range BbLogError \<union> range BbLogWarn"
  by (simp add: check_status_def)

lemma check_all_Cons:
  "check_all ((call, st) # rest) =
     (if st < 0 then (False, [call, BbLogError 179])
      else (fst (check_all rest),
            call # snd (check_status st) @ snd (check_all rest)))"
  by (simp add: check_status_def split: prod.splits)

lemma check_all_fst: "fst (check_all cs) \<longleftrightarrow> (\<forall>x \<in> set cs. 0 \<le> snd x)"
proof (induction cs)
  case Nil
  show ?case by simp
next
  case (Cons x cs)
  obtain call st where x: "x = (call, st)"
    by (cases x) auto
  show ?case
    unfolding x check_all_Cons using Cons.IH by auto
qed

lemma check_all_snd:
  "set (snd (check_all cs)) \<subseteq> fst ` set cs \<union> range BbLogError \<union> range BbLogWarn"
proof (induction cs)
  case Nil
  show ?case by simp
next
  case (Cons x cs)
  obtain call st where x: "x = (call, st)"
    by (cases x) auto
  show ?case
    unfolding x check_all_Cons using Cons.IH check_status_snd [of st] by auto
qed

lemma bb_configure_ok:
  "fst (bb_configure r s d) \<longleftrightarrow>
     0 \<le> refLevel_status r \<and> 0 \<le> gainAtten_status r \<and>
     0 \<le> iqCenter_status r \<and> 0 \<le> configureIQ_status r"
  by (simp only: bb_configure_def check_all_fst) simp

lemma bb_configure_events:
  "set (snd (bb_configure r s d)) \<subseteq>
     {BbConfigureRefLevel (bb_deviceHandle s) (bb_refLevel s),
      BbConfigureGainAtten (bb_deviceHandle s) (bb_gain s) (bb_attenuation s),
      BbConfigureIQCenter (bb_deviceHandle s) (bb_freq s),
      BbConfigureIQ (bb_deviceHandle s) d (bb_bandwidthHz s)}
     \<union> range BbLogError \<union> range BbLogWarn"
  using check_all_snd [of "[(BbConfigureRefLevel (bb_deviceHandle s) (bb_refLevel s), refLevel_status r),
        (BbConfigureGainAtten (bb_deviceHandle s) (bb_gain s) (bb_attenuation s), gainAtten_status r),
        (BbConfigureIQCenter (bb_deviceHandle s) (bb_freq s), iqCenter_status r),
        (BbConfigureIQ (bb_deviceHandle s) d (bb_bandwidthHz s), configureIQ_status r)]"]
  unfolding bb_configure_def by simp

section \<open>The order of the shutdown steps\<close>

text \<open>
  Claim C1, as amended. On the KC SDR module, whenever \<^verbatim>\<open>stop\<close> is called on a running
  instance (any state reached from the constructor by start, stop and tune calls in
  which \<^verbatim>\<open>running\<close> is set), its shutdown steps are, in this order: halt the device
  stream (\<^verbatim>\<open>rx_stop\<close>), \<^verbatim>\<open>stopWriter\<close>, join the worker thread, \<^verbatim>\<open>clearWriteStop\<close>. On
  the SignalHound BB module, \<^verbatim>\<open>stop\<close> on a running instance with a joinable thread and an
  open device performs \<^verbatim>\<open>stopWriter\<close>, then the join, and only then halts the device
  (\<^verbatim>\<open>bbAbort\<close>, \<^verbatim>\<open>bbCloseDevice\<close>), then \<^verbatim>\<open>clearWriteStop\<close>.
\<close>

theorem stop_order:
  "(kc_constructed s0 \<and> kc_running (fst (kc_calls cs s0)) \<longrightarrow>
      (\<exists>d. filter kc_shutdown_step (snd (kc_stop (fst (kc_calls cs s0)))) =
              [RxStop (Some d), KcStopWriter, KcJoin, KcClearWriteStop]))
   \<and> (bb_running s \<and> bb_rxThread s \<and> bb_deviceHandle s \<noteq> - 1 \<longrightarrow>
        filter bb_shutdown_step (snd (bb_stop s)) =
          [BbStopWriter, BbJoin, BbAbort (bb_deviceHandle s),
           BbCloseDevice (bb_deviceHandle s), BbClearWriteStop])"
proof (intro conjI impI)
  assume a: "kc_constructed s0 \<and> kc_running (fst (kc_calls cs s0))"
  define t where "t = fst (kc_calls cs s0)"
  from a have "kc_inv t"
    unfolding t_def by (simp add: kc_constructed_inv kc_calls_inv)
  moreover from a have "kc_running t"
    by (simp add: t_def)
  ultimately obtain d where "kc_api t" "kc_currentDevice t = Some d" "kc_workerThread t"
    by (auto simp: kc_inv_def)
  then have "filter kc_shutdown_step (snd (kc_stop t)) =
      [RxStop (Some d), KcStopWriter, KcJoin, KcClearWriteStop]"
    using \<open>kc_running t\<close> by (simp add: kc_stop_def)
  then show "\<exists>d. filter kc_shutdown_step (snd (kc_stop (fst (kc_calls cs s0)))) =
              [RxStop (Some d), KcStopWriter, KcJoin, KcClearWriteStop]"
    unfolding t_def by blast
next
  assume "bb_running s \<and> bb_rxThread s \<and> bb_deviceHandle s \<noteq> - 1"
  then show "filter bb_shutdown_step (snd (bb_stop s)) =
          [BbStopWriter, BbJoin, BbAbort (bb_deviceHandle s),
           BbCloseDevice (bb_deviceHandle s), BbClearWriteStop]"
    by (simp add: bb_stop_def)
qed

theorem stop_order_witness:
  "filter kc_shutdown_step
     (snd (kc_stop (fst (kc_calls [Start (Some 1)] kc_constructed_example))))
     = [RxStop (Some 1), KcStopWriter, KcJoin, KcClearWriteStop]
   \<and> filter bb_shutdown_step (snd (bb_stop bb_running_example)) =
       [BbStopWriter, BbJoin, BbAbort 0, BbCloseDevice 0, BbClearWriteStop]"
  using stop_order [of kc_constructed_example "[Start (Some 1)]" bb_running_example]
  by (simp add: kc_constructed_def kc_constructed_example_def kc_start_def kc_stop_def
      bb_running_example_def coreSetInputSampleRate_def)

text \<open>
  The claim as stated fails on the SignalHound BB module: in \<^verbatim>\<open>stop\<close> on a running
  instance the join comes before the device halt, and the device halt precedes neither
  \<^verbatim>\<open>stopWriter\<close> nor the join.
\<close>

theorem stop_order_counterexample:
  "precedes BbJoin (BbAbort 0) (snd (bb_stop bb_running_example))
   \<and> \<not> precedes (BbAbort 0) BbStopWriter (snd (bb_stop bb_running_example))
   \<and> \<not> precedes (BbAbort 0) BbJoin (snd (bb_stop bb_running_example))"
  by (simp add: precedes_def bb_stop_def bb_running_example_def)

section \<open>Helper facts about SignalHound BB start and restart\<close>

lemma check_status_no_call:
  "BbSpawn \<notin> set (snd (check_status st))"
  "BbJoin \<notin> set (snd (check_status st))"
  "BbSetInputSampleRate x \<notin> set (snd (check_status st))"
  "BbConfigureIQ h d w \<notin> set (snd (check_status st))"
  by (simp_all add: check_status_def)

lemma check_status_error:
  "BbLogError 179 \<in> set (snd (check_status st)) \<longleftrightarrow> st < 0"
  by (simp add: check_status_def)

lemma bb_configure_no_thread:
  "BbSpawn \<notin> set (snd (bb_configure r s d))"
  "BbJoin \<notin> set (snd (bb_configure r s d))"
  "BbSetInputSampleRate x \<notin> set (snd (bb_configure r s d))"
  using bb_configure_events [of r s d] by auto

lemma bb_configure_IQ:
  "BbConfigureIQ h d' w \<in> set (snd (bb_configure r s d)) \<longleftrightarrow>
     h = bb_deviceHandle s \<and> d' = d \<and> w = bb_bandwidthHz s \<and>
     0 \<le> refLevel_status r \<and> 0 \<le> gainAtten_status r \<and> 0 \<le> iqCenter_status r"
  by (auto simp: bb_configure_def check_status_def)

lemma bb_configure_error:
  "BbLogError 179 \<in> set (snd (bb_configure r s d)) \<longleftrightarrow> \<not> fst (bb_configure r s d)"
  by (auto simp: bb_configure_def check_status_def)

lemma restart_result:
  assumes "bb_running b" "bb_deviceHandle b \<noteq> - 1"
    "0 \<le> bb_decimationId b" "bb_decimationId b < 14"
  shows "\<exists>b' es. restartStreamWithNewParams r b = Some (b', es)
     \<and> bb_running b' = restart_ok r \<and> bb_rxThread b' = restart_ok r
     \<and> (BbSpawn \<in> set es \<longleftrightarrow> restart_ok r)
     \<and> bb_deviceHandle b' = bb_deviceHandle b"
  using assms
  by (auto simp: restartStreamWithNewParams_def Let_def length_maxBandwidths case_prod_beta
      check_status_fst bb_configure_ok check_status_no_call bb_configure_no_thread restart_ok_def)

lemma restart_bandwidth:
  assumes "bb_running b" "bb_deviceHandle b \<noteq> - 1"
    "0 \<le> bb_decimationId b" "bb_decimationId b < 14"
  shows "\<exists>b' es. restartStreamWithNewParams r b = Some (b', es)
     \<and> bb_bandwidthHz b' = min (maxBandwidths ! nat (bb_decimationId b)) (max 200 (bb_bandwidthHz b))
     \<and> (\<forall>h d w. BbConfigureIQ h d w \<in> set es \<longrightarrow> w = bb_bandwidthHz b')"
  using assms
  by (simp add: restartStreamWithNewParams_def Let_def length_maxBandwidths case_prod_beta
      check_status_no_call bb_configure_IQ min_def max_def)

lemma restart_notify:
  assumes "bb_running b" "bb_deviceHandle b \<noteq> - 1"
    "0 \<le> bb_decimationId b" "bb_decimationId b < 14"
  shows "\<exists>b' es. restartStreamWithNewParams r b = Some (b', es)
     \<and> (\<forall>x. BbSetInputSampleRate x \<in> set es \<longrightarrow> x = query_sample_rate r)
     \<and> (bb_running b' \<and> 0 \<le> query_status r \<longrightarrow>
          BbSetInputSampleRate (query_sample_rate r) \<in> set es \<and>
          bb_actualSampleRate b' = query_sample_rate r)"
  using assms
  by (simp add: restartStreamWithNewParams_def Let_def length_maxBandwidths case_prod_beta
      check_status_no_call bb_configure_no_thread check_status_fst)

lemma restart_error_logged:
  assumes "bb_running b" "bb_deviceHandle b \<noteq> - 1"
    "0 \<le> bb_decimationId b" "bb_decimationId b < 14" "\<not> restart_ok r"
  shows "\<exists>b' es. restartStreamWithNewParams r b = Some (b', es)
     \<and> (BbLogError 337 \<in> set es \<or> BbLogError 343 \<in> set es)"
  using assms
  by (auto simp: restartStreamWithNewParams_def Let_def length_maxBandwidths case_prod_beta
      check_status_fst bb_configure_ok restart_ok_def)


lemma start_result:
  assumes "\<not> bb_running b" "bb_selectedSerial b \<noteq> 0"
    "0 \<le> open_status r \<longrightarrow> 0 \<le> bb_decimationId b \<and> bb_decimationId b < 14"
  shows "\<exists>b' es. bb_start r b = Some (b', es)
     \<and> bb_running b' = start_ok r
     \<and> bb_rxThread b' = (bb_rxThread b \<or> start_ok r)
     \<and> (BbSpawn \<in> set es \<longleftrightarrow> start_ok r)
     \<and> BbJoin \<notin> set es"
  using assms
  by (auto simp: bb_start_def Let_def length_maxBandwidths case_prod_beta
      check_status_fst bb_configure_ok check_status_no_call bb_configure_no_thread start_ok_def)

lemma start_error_logged:
  assumes "\<not> bb_running b" "bb_selectedSerial b \<noteq> 0"
    "0 \<le> open_status r \<longrightarrow> 0 \<le> bb_decimationId b \<and> bb_decimationId b < 14"
    "\<not> start_ok r"
  shows "\<exists>b' es. bb_start r b = Some (b', es) \<and> BbLogError 179 \<in> set es"
  using assms
  by (auto simp: bb_start_def Let_def length_maxBandwidths case_prod_beta
      check_status_fst check_status_error bb_configure_error bb_configure_ok start_ok_def)

lemma start_bandwidth:
  assumes "\<not> bb_running b" "bb_selectedSerial b \<noteq> 0" "0 \<le> open_status r"
    "0 \<le> bb_decimationId b" "bb_decimationId b < 14"
  shows "\<exists>b' es. bb_start r b = Some (b', es)
     \<and> bb_bandwidthHz b' = min (maxBandwidths ! nat (bb_decimationId b)) (max 200 (bb_bandwidthHz b))
     \<and> (\<forall>h d w. BbConfigureIQ h d w \<in> set es \<longrightarrow> w = bb_bandwidthHz b')"
  using assms
  by (simp add: bb_start_def Let_def length_maxBandwidths case_prod_beta
      check_status_fst check_status_no_call bb_configure_IQ min_def max_def)

lemma start_notify:
  assumes "\<not> bb_running b" "bb_selectedSerial b \<noteq> 0"
    "0 \<le> open_status r \<longrightarrow> 0 \<le> bb_decimationId b \<and> bb_decimationId b < 14"
  shows "\<exists>b' es. bb_start r b = Some (b', es)
     \<and> (\<forall>x. BbSetInputSampleRate x \<in> set es \<longrightarrow> x = query_sample_rate r)
     \<and> (bb_running b' \<longrightarrow>
          BbSetInputSampleRate (query_sample_rate r) \<in> set es \<and>
          bb_actualSampleRate b' = query_sample_rate r)"
  using assms
  by (auto simp: bb_start_def Let_def length_maxBandwidths case_prod_beta
      check_status_no_call bb_configure_no_thread check_status_fst)

section \<open>Tuning\<close>




section \<open>The acquisition loops\<close>

lemma kc_worker_pass_leave: "fst (kc_worker_pass p) = Leave \<longleftrightarrow> kc_leave p"
  by (auto simp: kc_worker_pass_def kc_leave_def split: option.splits)

lemma kc_worker_loop_Cons_fst:
  "fst (kc_worker_loop (p # ps)) \<longleftrightarrow>
     fst (kc_worker_pass p) = Leave \<or> fst (kc_worker_loop ps)"
  by (simp split: prod.splits loop_control.splits)

lemma kc_worker_loop_Cons_snd:
  "snd (kc_worker_loop (p # ps)) =
     snd (kc_worker_pass p) @
     (if fst (kc_worker_pass p) = Leave then [] else snd (kc_worker_loop ps))"
  by (simp split: prod.splits loop_control.splits)

lemma kc_worker_loop_left: "fst (kc_worker_loop ps) \<longleftrightarrow> (\<exists>p \<in> set ps. kc_leave p)"
proof (induction ps)
  case Nil
  show ?case by simp
next
  case (Cons p ps)
  show ?case
    unfolding kc_worker_loop_Cons_fst kc_worker_pass_leave Cons.IH by simp
qed

text \<open>
  Claim C3, as amended. In the KC SDR worker, a failed read while \<^verbatim>\<open>run\<close> is still set
  is retried without any log line, and the loop is left only when \<^verbatim>\<open>run\<close> is found
  cleared (at the loop test or after a failed read) or when \<^verbatim>\<open>swap\<close> returns false. In
  the SignalHound BB receive thread, a read that fails with \<^verbatim>\<open>bbDeviceNotStreamingErr\<close>
  is retried after a warning and a pause of 10 ms, but a read with any other status
  different from \<^verbatim>\<open>bbNoError\<close> logs an error and ends the loop; the loop is left also
  when \<^verbatim>\<open>running\<close> is cleared or \<^verbatim>\<open>swap\<close> returns false.
\<close>

theorem worker_retry:
  "(kp_run p \<and> kp_device p \<and> kp_read p = None \<and> kp_run_after p \<longrightarrow>
      kc_worker_pass p = (Next, [KwRead BYTES_PER_READ]))
   \<and> (fst (kc_worker_pass p) = Leave \<longleftrightarrow> kc_leave p)
   \<and> (fst (kc_worker_loop ps) \<longleftrightarrow> (\<exists>p \<in> set ps. kc_leave p))
   \<and> (bp_running q \<and> bp_status q \<noteq> bbNoError \<longrightarrow>
        rx_thread_pass bbNoError bbDeviceNotStreamingErr q purge =
          (if bp_status q = bbDeviceNotStreamingErr
           then (Next, False, [BwGetIQ (bp_deviceHandle q) purge, BwLogWarn 546, BwSleep 10])
           else (Leave, False, [BwGetIQ (bp_deviceHandle q) purge, BwLogError 550])))
   \<and> (fst (rx_thread_pass bbNoError bbDeviceNotStreamingErr q purge) = Leave \<longleftrightarrow>
        bb_leave bbNoError bbDeviceNotStreamingErr q)"
proof (intro conjI)
  show "kp_run p \<and> kp_device p \<and> kp_read p = None \<and> kp_run_after p \<longrightarrow>
      kc_worker_pass p = (Next, [KwRead BYTES_PER_READ])"
    by (simp add: kc_worker_pass_def)
  show "fst (kc_worker_pass p) = Leave \<longleftrightarrow> kc_leave p"
    by (rule kc_worker_pass_leave)
  show "fst (kc_worker_loop ps) \<longleftrightarrow> (\<exists>p \<in> set ps. kc_leave p)"
    by (rule kc_worker_loop_left)
  show "bp_running q \<and> bp_status q \<noteq> bbNoError \<longrightarrow>
        rx_thread_pass bbNoError bbDeviceNotStreamingErr q purge =
          (if bp_status q = bbDeviceNotStreamingErr
           then (Next, False, [BwGetIQ (bp_deviceHandle q) purge, BwLogWarn 546, BwSleep 10])
           else (Leave, False, [BwGetIQ (bp_deviceHandle q) purge, BwLogError 550]))"
    by (simp add: rx_thread_pass_def)
  show "fst (rx_thread_pass bbNoError bbDeviceNotStreamingErr q purge) = Leave \<longleftrightarrow>
        bb_leave bbNoError bbDeviceNotStreamingErr q"
    by (auto simp: rx_thread_pass_def bb_leave_def Let_def)
qed

theorem worker_retry_witness:
  "kc_worker_pass kc_pass_timeout = (Next, [KwRead BYTES_PER_READ])
   \<and> fst (kc_worker_pass kc_pass_timeout) \<noteq> Leave
   \<and> \<not> fst (kc_worker_loop [kc_pass_timeout, kc_pass_timeout])
   \<and> fst (kc_worker_loop [kc_pass_timeout, kc_pass_timeout\<lparr>kp_run_after := False\<rparr>])
   \<and> rx_thread_pass 0 (- 2) (bb_pass_usb_timeout\<lparr>bp_status := - 2\<rparr>) True =
       (Next, False, [BwGetIQ 0 True, BwLogWarn 546, BwSleep 10])
   \<and> fst (rx_thread_pass 0 (- 2) bb_pass_usb_timeout False) = Leave"
  using worker_retry [of kc_pass_timeout "[kc_pass_timeout, kc_pass_timeout]"
      "bb_pass_usb_timeout\<lparr>bp_status := - 2\<rparr>" 0 "- 2" True]
    worker_retry [of kc_pass_timeout
      "[kc_pass_timeout, kc_pass_timeout\<lparr>kp_run_after := False\<rparr>]"
      bb_pass_usb_timeout 0 "- 2" False]
  by (simp add: kc_pass_timeout_def bb_pass_usb_timeout_def kc_leave_def bb_leave_def)

text \<open>
  The claim as stated fails on the SignalHound BB module: with \<^verbatim>\<open>bbNoError\<close> \<open>= 0\<close> and
  \<^verbatim>\<open>bbDeviceNotStreamingErr\<close> \<open>= - 2\<close>, a read that returns status \<open>- 15\<close> while
  \<^verbatim>\<open>running\<close> is set ends the loop.
\<close>

theorem worker_retry_counterexample:
  "rx_thread_pass 0 (- 2) bb_pass_usb_timeout False =
     (Leave, False, [BwGetIQ 0 False, BwLogError 550])
   \<and> bp_running bb_pass_usb_timeout"
  by (simp add: rx_thread_pass_def bb_pass_usb_timeout_def)

section \<open>Start as a no-op\<close>

text \<open>
  Claim C4. \<^verbatim>\<open>start\<close> on an instance that is already running, or (KC SDR) whose
  \<^verbatim>\<open>api\<close> pointer is null, or (SignalHound BB) that has no device selected, changes no
  field, makes no device call and spawns no thread; the only action is the error line
  the KC SDR module logs for the null \<^verbatim>\<open>api\<close>.
\<close>

theorem start_noop:
  "(kc_running s \<or> \<not> kc_api s \<longrightarrow>
      fst (kc_start found s) = s \<and>
      snd (kc_start found s) = (if kc_running s then [] else [KcLogError 112]))
   \<and> (bb_running b \<or> bb_selectedSerial b = 0 \<longrightarrow> bb_start r b = Some (b, []))"
  by (simp add: kc_start_def bb_start_def)

theorem start_noop_witness:
  "fst (kc_start (Some 1) (fst (kc_start (Some 1) kc_constructed_example)))
     = fst (kc_start (Some 1) kc_constructed_example)
   \<and> snd (kc_start (Some 1) (fst (kc_start (Some 1) kc_constructed_example))) = []
   \<and> fst (kc_start (Some 1) (kc_constructed_example\<lparr>kc_api := False\<rparr>))
     = kc_constructed_example\<lparr>kc_api := False\<rparr>
   \<and> snd (kc_start (Some 1) (kc_constructed_example\<lparr>kc_api := False\<rparr>)) = [KcLogError 112]
   \<and> bb_start bb_replies_ok bb_running_example = Some (bb_running_example, [])
   \<and> bb_start bb_replies_ok (bb_stopped_example\<lparr>bb_selectedSerial := 0\<rparr>)
       = Some (bb_stopped_example\<lparr>bb_selectedSerial := 0\<rparr>, [])"
  using start_noop [of "fst (kc_start (Some 1) kc_constructed_example)" "Some 1"
      bb_running_example bb_replies_ok]
    start_noop [of "kc_constructed_example\<lparr>kc_api := False\<rparr>" "Some 1"
      "bb_stopped_example\<lparr>bb_selectedSerial := 0\<rparr>" bb_replies_ok]
  by (simp add: kc_start_def kc_constructed_example_def bb_running_example_def
      bb_stopped_example_def)

section \<open>At most one worker thread\<close>

lemma alive_peak_ge: "n \<le> alive_peak n es"
proof (induction es arbitrary: n)
  case Nil
  show ?case by simp
next
  case (Cons e es)
  have "n + 1 \<le> alive_peak (n + 1) es" "n - 1 \<le> alive_peak (n - 1) es"
    "n \<le> alive_peak n es"
    by (rule Cons)+
  then show ?case by (cases e) simp_all
qed

lemma alive_peak_append:
  "alive_peak n (es @ es') = max (alive_peak n es) (alive_peak (n + alive_delta es) es')"
proof (induction es arbitrary: n)
  case Nil
  show ?case
    using alive_peak_ge [of n es'] by simp
next
  case (Cons e es)
  show ?case
    by (cases e) (simp_all add: Cons algebra_simps)
qed

lemma kc_call_alive:
  assumes "kc_inv s"
  shows "alive_peak (kc_alive s) (snd (kc_call c s)) \<le> 1"
    and "kc_alive s + alive_delta (snd (kc_call c s)) = kc_alive (fst (kc_call c s))"
  using assms
  by (cases c; auto simp: kc_inv_def kc_alive_def kc_start_def kc_stop_def kc_tune_def
      coreSetInputSampleRate_def split: option.splits)+

lemma kc_calls_alive:
  "kc_inv s \<Longrightarrow> alive_peak (kc_alive s) (snd (kc_calls cs s)) \<le> 1"
proof (induction cs arbitrary: s)
  case Nil
  then show ?case by (simp add: kc_alive_def)
next
  case (Cons c cs)
  have "kc_inv (fst (kc_call c s))"
    using Cons.prems by (rule kc_call_inv)
  then have "alive_peak (kc_alive (fst (kc_call c s))) (snd (kc_calls cs (fst (kc_call c s)))) \<le> 1"
    by (rule Cons.IH)
  then show ?case
    unfolding kc_calls_Cons_snd alive_peak_append
    using kc_call_alive [OF Cons.prems, of c] by simp
qed

text \<open>
  Claim C5. For every sequence of start, stop and tune calls on a KC SDR instance as
  the constructor leaves it, the number of worker threads spawned and not yet joined
  never exceeds 1 at any point of the resulting action list.
\<close>

theorem at_most_one_worker:
  "kc_constructed s0 \<Longrightarrow> alive_peak 0 (snd (kc_calls cs s0)) \<le> 1"
  using kc_calls_alive [of s0 cs] kc_constructed_inv [of s0]
  by (simp add: kc_alive_def kc_constructed_def)

theorem at_most_one_worker_witness:
  "kc_constructed kc_constructed_example \<and>
   alive_peak 0 (snd (kc_calls [Start (Some 1), Start (Some 1), Tune 5, Stop, Stop,
      Start None, Start (Some 2)] kc_constructed_example)) = 1"
proof -
  have c: "kc_constructed kc_constructed_example"
    by (simp add: kc_constructed_def kc_constructed_example_def)
  have "alive_peak 0 (snd (kc_calls [Start (Some 1), Start (Some 1), Tune 5, Stop, Stop,
      Start None, Start (Some 2)] kc_constructed_example)) \<le> 1"
    using c by (rule at_most_one_worker)
  moreover have "1 \<le> alive_peak 0 (snd (kc_calls [Start (Some 1), Start (Some 1), Tune 5, Stop, Stop,
      Start None, Start (Some 2)] kc_constructed_example))"
    by (simp add: kc_constructed_example_def kc_start_def kc_stop_def kc_tune_def
        coreSetInputSampleRate_def)
  ultimately show ?thesis using c by simp
qed

section \<open>Bandwidth clamping and the sample-rate notification\<close>

text \<open>
  Claim C7. When the requested bandwidth exceeds the maximum of the selected decimation,
  a \<^verbatim>\<open>start\<close> that opens the device and every \<^verbatim>\<open>restartStreamWithNewParams\<close> of a
  running instance adopt that maximum as \<^verbatim>\<open>bandwidthHz\<close> and pass it to
  \<^verbatim>\<open>bbConfigureIQ\<close>; every sample-rate notification they send carries the rate that
  \<^verbatim>\<open>bbQueryIQParameters\<close> returned, and it is sent whenever the start succeeds, and on a
  restart whenever the stream is running again and the query succeeded.
\<close>

theorem bandwidth_clamped:
  assumes "0 \<le> bb_decimationId b" "bb_decimationId b < 14"
    "bb_bandwidthHz b > maxBandwidths ! nat (bb_decimationId b)"
  shows "(\<not> bb_running b \<and> bb_selectedSerial b \<noteq> 0 \<and> 0 \<le> open_status r \<longrightarrow>
           (\<exists>b' es. bb_start r b = Some (b', es) \<and>
              bb_bandwidthHz b' = maxBandwidths ! nat (bb_decimationId b) \<and>
              (\<forall>h d w. BbConfigureIQ h d w \<in> set es \<longrightarrow>
                 w = maxBandwidths ! nat (bb_decimationId b)) \<and>
              (\<forall>x. BbSetInputSampleRate x \<in> set es \<longrightarrow> x = query_sample_rate r) \<and>
              (bb_running b' \<longrightarrow> BbSetInputSampleRate (query_sample_rate r) \<in> set es)))
       \<and> (bb_running b \<and> bb_deviceHandle b \<noteq> - 1 \<longrightarrow>
           (\<exists>b' es. restartStreamWithNewParams r b = Some (b', es) \<and>
              bb_bandwidthHz b' = maxBandwidths ! nat (bb_decimationId b) \<and>
              (\<forall>h d w. BbConfigureIQ h d w \<in> set es \<longrightarrow>
                 w = maxBandwidths ! nat (bb_decimationId b)) \<and>
              (\<forall>x. BbSetInputSampleRate x \<in> set es \<longrightarrow> x = query_sample_rate r) \<and>
              (bb_running b' \<and> 0 \<le> query_status r \<longrightarrow>
                 BbSetInputSampleRate (query_sample_rate r) \<in> set es)))"
proof (intro conjI impI)
  have clamp: "min (maxBandwidths ! nat (bb_decimationId b)) (max 200 (bb_bandwidthHz b))
      = maxBandwidths ! nat (bb_decimationId b)"
    using assms(3) by simp
  {
    assume a: "\<not> bb_running b \<and> bb_selectedSerial b \<noteq> 0 \<and> 0 \<le> open_status r"
    from a assms start_bandwidth [of b r] obtain b' es where
      1: "bb_start r b = Some (b', es)"
        "bb_bandwidthHz b' = maxBandwidths ! nat (bb_decimationId b)"
        "\<forall>h d w. BbConfigureIQ h d w \<in> set es \<longrightarrow> w = bb_bandwidthHz b'"
      unfolding clamp by blast
    from a assms start_notify [of b r] 1(1) have
      2: "\<forall>x. BbSetInputSampleRate x \<in> set es \<longrightarrow> x = query_sample_rate r"
        "bb_running b' \<longrightarrow> BbSetInputSampleRate (query_sample_rate r) \<in> set es"
      by auto
    from 1 2 show "\<exists>b' es. bb_start r b = Some (b', es) \<and>
              bb_bandwidthHz b' = maxBandwidths ! nat (bb_decimationId b) \<and>
              (\<forall>h d w. BbConfigureIQ h d w \<in> set es \<longrightarrow>
                 w = maxBandwidths ! nat (bb_decimationId b)) \<and>
              (\<forall>x. BbSetInputSampleRate x \<in> set es \<longrightarrow> x = query_sample_rate r) \<and>
              (bb_running b' \<longrightarrow> BbSetInputSampleRate (query_sample_rate r) \<in> set es)"
      by simp
  }
  {
    assume a: "bb_running b \<and> bb_deviceHandle b \<noteq> - 1"
    from a assms restart_bandwidth [of b r] obtain b' es where
      1: "restartStreamWithNewParams r b = Some (b', es)"
        "bb_bandwidthHz b' = maxBandwidths ! nat (bb_decimationId b)"
        "\<forall>h d w. BbConfigureIQ h d w \<in> set es \<longrightarrow> w = bb_bandwidthHz b'"
      unfolding clamp by blast
    from a assms restart_notify [of b r] 1(1) have
      2: "\<forall>x. BbSetInputSampleRate x \<in> set es \<longrightarrow> x = query_sample_rate r"
        "bb_running b' \<and> 0 \<le> query_status r \<longrightarrow>
           BbSetInputSampleRate (query_sample_rate r) \<in> set es"
      by auto
    from 1 2 show "\<exists>b' es. restartStreamWithNewParams r b = Some (b', es) \<and>
              bb_bandwidthHz b' = maxBandwidths ! nat (bb_decimationId b) \<and>
              (\<forall>h d w. BbConfigureIQ h d w \<in> set es \<longrightarrow>
                 w = maxBandwidths ! nat (bb_decimationId b)) \<and>
              (\<forall>x. BbSetInputSampleRate x \<in> set es \<longrightarrow> x = query_sample_rate r) \<and>
              (bb_running b' \<and> 0 \<le> query_status r \<longrightarrow>
                 BbSetInputSampleRate (query_sample_rate r) \<in> set es)"
      by simp
  }
qed

theorem bandwidth_clamped_witness:
  "(0::int) \<le> 6 \<and> (6::int) < 14 \<and> (600000::real) > maxBandwidths ! 6
   \<and> (\<exists>b' es. bb_start bb_replies_ok bb_stopped_example = Some (b', es) \<and>
         bb_bandwidthHz b' = 500000 \<and> bb_running b' \<and>
         BbConfigureIQ 0 64 500000 \<in> set es \<and> BbSetInputSampleRate 625000 \<in> set es)
   \<and> (\<exists>b' es. restartStreamWithNewParams bb_replies_ok
                  (bb_running_example\<lparr>bb_bandwidthHz := 600000\<rparr>) = Some (b', es) \<and>
         bb_bandwidthHz b' = 500000 \<and> bb_running b' \<and>
         BbConfigureIQ 0 64 500000 \<in> set es \<and> BbSetInputSampleRate 625000 \<in> set es)"
  using bandwidth_clamped [of bb_stopped_example bb_replies_ok]
    bandwidth_clamped [of "bb_running_example\<lparr>bb_bandwidthHz := 600000\<rparr>" bb_replies_ok]
  by (simp add: bb_stopped_example_def bb_running_example_def bb_replies_ok_def
      maxBandwidths_def bb_start_def restartStreamWithNewParams_def bb_configure_def
      check_status_def Let_def)

section \<open>Reconfiguring a running instance\<close>

text \<open>
  Claim C8, as amended. \<^verbatim>\<open>restartStreamWithNewParams\<close> on a running instance with an
  open device leaves the instance running with a newly spawned receive thread exactly
  when the device accepts the four configuration calls and \<^verbatim>\<open>bbInitiate\<close>. When one
  of them fails, an error is logged and the instance is left not running, with no
  receive thread.
\<close>

theorem reconfigure_outcome:
  assumes "bb_running b" "bb_deviceHandle b \<noteq> - 1"
    "0 \<le> bb_decimationId b" "bb_decimationId b < 14"
  shows "\<exists>b' es. restartStreamWithNewParams r b = Some (b', es) \<and>
     (if restart_ok r
      then bb_running b' \<and> bb_rxThread b' \<and> BbSpawn \<in> set es
      else \<not> bb_running b' \<and> \<not> bb_rxThread b' \<and> BbSpawn \<notin> set es \<and>
           (BbLogError 337 \<in> set es \<or> BbLogError 343 \<in> set es))"
proof (cases "restart_ok r")
  case True
  with restart_result [OF assms, of r] show ?thesis
    by auto
next
  case False
  from restart_error_logged [OF assms False] obtain b' es where
    1: "restartStreamWithNewParams r b = Some (b', es)"
      "BbLogError 337 \<in> set es \<or> BbLogError 343 \<in> set es"
    by blast
  with restart_result [OF assms, of r] False show ?thesis
    by auto
qed

theorem reconfigure_outcome_witness:
  "bb_running bb_running_example \<and> bb_deviceHandle bb_running_example \<noteq> - 1 \<and>
   0 \<le> bb_decimationId bb_running_example \<and> bb_decimationId bb_running_example < 14 \<and>
   restart_ok bb_replies_ok \<and> \<not> restart_ok bb_replies_reject \<and>
   (\<exists>b' es. restartStreamWithNewParams bb_replies_ok bb_running_example = Some (b', es) \<and>
      bb_running b' \<and> bb_rxThread b' \<and> BbSpawn \<in> set es) \<and>
   (\<exists>b' es. restartStreamWithNewParams bb_replies_reject bb_running_example = Some (b', es) \<and>
      \<not> bb_running b' \<and> \<not> bb_rxThread b' \<and> BbSpawn \<notin> set es \<and>
      (BbLogError 337 \<in> set es \<or> BbLogError 343 \<in> set es))"
  using reconfigure_outcome [of bb_running_example bb_replies_ok]
    reconfigure_outcome [of bb_running_example bb_replies_reject]
  by (simp add: bb_running_example_def bb_replies_ok_def bb_replies_reject_def restart_ok_def)

text \<open>
  The claim as stated fails: when the device rejects the reference level, the
  reconfiguration returns with \<^verbatim>\<open>running\<close> cleared and no thread spawned.
\<close>

theorem reconfigure_outcome_counterexample:
  "restartStreamWithNewParams bb_replies_reject bb_running_example =
     Some (bb_running_example\<lparr>bb_running := False, bb_rxThread := False\<rparr>,
           [BbLogInfo 306, BbStopWriter, BbJoin, BbAbort 0,
            BbConfigureRefLevel 0 (- 20), BbLogError 179, BbLogError 337])
   \<and> \<not> bb_running (bb_running_example\<lparr>bb_running := False, bb_rxThread := False\<rparr>)"
  by (simp add: restartStreamWithNewParams_def bb_running_example_def bb_replies_reject_def
      bb_replies_ok_def maxBandwidths_def bb_configure_def check_status_def Let_def)

section \<open>A start that fails\<close>

text \<open>
  Claim C9, as amended. When \<^verbatim>\<open>start\<close> meets an initialisation error (KC SDR: the
  \<^verbatim>\<open>api\<close> pointer is null, or no device is held and \<^verbatim>\<open>api->find\<close> returns none;
  SignalHound BB: the open or any later SDK call of \<^verbatim>\<open>start\<close> returns an error status),
  the instance stays not running, no thread is spawned, an error line is logged, and a
  later \<^verbatim>\<open>start\<close> that meets no error runs the instance. When a SignalHound BB instance
  has no device selected (\<^verbatim>\<open>selectedSerial == 0\<close>), \<^verbatim>\<open>start\<close> also leaves it not running
  and spawns no thread, but it returns at its first guard without any action: no error
  is logged.
\<close>

theorem start_failure:
  "(\<not> kc_running s \<and> (\<not> kc_api s \<or> kc_currentDevice s = None \<and> found = None) \<longrightarrow>
      fst (kc_start found s) = s \<and>
      KcSpawn \<notin> set (snd (kc_start found s)) \<and>
      (\<exists>n. KcLogError n \<in> set (snd (kc_start found s))) \<and>
      (kc_api s \<longrightarrow> kc_running (fst (kc_start (Some d) (fst (kc_start found s))))))
   \<and> (\<not> bb_running b \<and> bb_selectedSerial b \<noteq> 0 \<and> \<not> start_ok r \<and>
      0 \<le> bb_decimationId b \<and> bb_decimationId b < 14 \<longrightarrow>
        (\<exists>b' es. bb_start r b = Some (b', es) \<and>
           \<not> bb_running b' \<and> bb_rxThread b' = bb_rxThread b \<and>
           BbSpawn \<notin> set es \<and> BbLogError 179 \<in> set es \<and>
           (start_ok r' \<longrightarrow>
             (\<exists>b'' es'. bb_start r' b' = Some (b'', es') \<and> bb_running b''))))
   \<and> (\<not> bb_running b \<and> bb_selectedSerial b = 0 \<longrightarrow> bb_start r b = Some (b, []))"
proof (intro conjI)
  show "\<not> bb_running b \<and> bb_selectedSerial b = 0 \<longrightarrow> bb_start r b = Some (b, [])"
    by (simp add: bb_start_def)
next
  show "\<not> kc_running s \<and> (\<not> kc_api s \<or> kc_currentDevice s = None \<and> found = None) \<longrightarrow>
      fst (kc_start found s) = s \<and>
      KcSpawn \<notin> set (snd (kc_start found s)) \<and>
      (\<exists>n. KcLogError n \<in> set (snd (kc_start found s))) \<and>
      (kc_api s \<longrightarrow> kc_running (fst (kc_start (Some d) (fst (kc_start found s)))))"
    by (auto simp: kc_start_def)
next
  show "\<not> bb_running b \<and> bb_selectedSerial b \<noteq> 0 \<and> \<not> start_ok r \<and>
      0 \<le> bb_decimationId b \<and> bb_decimationId b < 14 \<longrightarrow>
        (\<exists>b' es. bb_start r b = Some (b', es) \<and>
           \<not> bb_running b' \<and> bb_rxThread b' = bb_rxThread b \<and>
           BbSpawn \<notin> set es \<and> BbLogError 179 \<in> set es \<and>
           (start_ok r' \<longrightarrow>
             (\<exists>b'' es'. bb_start r' b' = Some (b'', es') \<and> bb_running b'')))"
  proof (rule impI)
    assume a: "\<not> bb_running b \<and> bb_selectedSerial b \<noteq> 0 \<and> \<not> start_ok r \<and>
        0 \<le> bb_decimationId b \<and> bb_decimationId b < 14"
    then have pre: "\<not> bb_running b" "bb_selectedSerial b \<noteq> 0"
      "0 \<le> open_status r \<longrightarrow> 0 \<le> bb_decimationId b \<and> bb_decimationId b < 14"
      "\<not> start_ok r"
      by simp_all
    from start_result [OF pre(1-3)] obtain b' es where
      1: "bb_start r b = Some (b', es)" "\<not> bb_running b'" "bb_rxThread b' = bb_rxThread b"
        "BbSpawn \<notin> set es"
      using pre(4) by auto
    from start_error_logged [OF pre] 1(1) have 2: "BbLogError 179 \<in> set es"
      by auto
    have 3: "bb_selectedSerial b' = bb_selectedSerial b \<and> bb_decimationId b' = bb_decimationId b"
      using 1(1) pre(1,2)
      by (auto simp: bb_start_def Let_def case_prod_beta split: if_splits)
    have 4: "start_ok r' \<longrightarrow> (\<exists>b'' es'. bb_start r' b' = Some (b'', es') \<and> bb_running b'')"
    proof
      assume ok: "start_ok r'"
      have "\<exists>b'' es'. bb_start r' b' = Some (b'', es') \<and> bb_running b'' = start_ok r'"
        using start_result [of b' r'] 1(2) 3 a by auto
      with ok show "\<exists>b'' es'. bb_start r' b' = Some (b'', es') \<and> bb_running b''"
        by auto
    qed
    from 1 2 4 show "\<exists>b' es. bb_start r b = Some (b', es) \<and>
             \<not> bb_running b' \<and> bb_rxThread b' = bb_rxThread b \<and>
             BbSpawn \<notin> set es \<and> BbLogError 179 \<in> set es \<and>
             (start_ok r' \<longrightarrow>
               (\<exists>b'' es'. bb_start r' b' = Some (b'', es') \<and> bb_running b''))"
      by blast
  qed
qed

theorem start_failure_witness:
  "fst (kc_start None kc_constructed_example) = kc_constructed_example
   \<and> snd (kc_start None kc_constructed_example) = [ApiFind 0, KcLogError 117]
   \<and> kc_running (fst (kc_start (Some 1) (fst (kc_start None kc_constructed_example))))
   \<and> fst (kc_start (Some 1) (kc_constructed_example\<lparr>kc_api := False\<rparr>)) =
       kc_constructed_example\<lparr>kc_api := False\<rparr>
   \<and> KcLogError 112 \<in> set (snd (kc_start (Some 1) (kc_constructed_example\<lparr>kc_api := False\<rparr>)))
   \<and> (\<exists>b' es. bb_start (bb_replies_ok\<lparr>open_status := - 1\<rparr>) bb_stopped_example = Some (b', es)
        \<and> \<not> bb_running b' \<and> \<not> bb_rxThread b' \<and> BbSpawn \<notin> set es \<and> BbLogError 179 \<in> set es
        \<and> (\<exists>b'' es'. bb_start bb_replies_ok b' = Some (b'', es') \<and> bb_running b''))
   \<and> bb_start bb_replies_ok bb_no_device_example = Some (bb_no_device_example, [])"
proof -
  have kc: "snd (kc_start None kc_constructed_example) = [ApiFind 0, KcLogError 117]"
    "kc_running (fst (kc_start (Some 1) kc_constructed_example))"
    "KcLogError 112 \<in> set (snd (kc_start (Some 1) (kc_constructed_example\<lparr>kc_api := False\<rparr>)))"
    by (simp_all add: kc_start_def kc_constructed_example_def)
  have ok: "start_ok bb_replies_ok" "\<not> start_ok (bb_replies_ok\<lparr>open_status := - 1\<rparr>)"
    by (simp_all add: start_ok_def bb_replies_ok_def)
  show ?thesis
    using start_failure [of kc_constructed_example None 1 bb_stopped_example
        "bb_replies_ok\<lparr>open_status := - 1\<rparr>" bb_replies_ok]
      start_failure [of "kc_constructed_example\<lparr>kc_api := False\<rparr>" "Some 1" 1
        bb_no_device_example bb_replies_ok bb_replies_ok] kc ok
    by (simp add: kc_constructed_example_def bb_stopped_example_def bb_no_device_example_def)
qed

text \<open>
  The claim as stated fails on the SignalHound BB module: with no device selected,
  \<^verbatim>\<open>start\<close> cannot open a device and returns without logging anything.
\<close>

theorem start_failure_counterexample:
  "bb_start (bb_replies_ok\<lparr>open_status := - 1\<rparr>) bb_no_device_example =
     Some (bb_no_device_example, [])
   \<and> \<not> bb_running bb_no_device_example
   \<and> bb_selectedSerial bb_no_device_example = 0"
  by (simp add: bb_start_def bb_no_device_example_def bb_stopped_example_def)

section \<open>Size of the committed batches\<close>

lemma length_convert: "length (convert readBuffer) = SAMPLES_PER_READ"
  by (simp add: convert_def)

lemma kc_worker_pass_swap:
  "KwSwap n batch \<in> set (snd (kc_worker_pass p)) \<Longrightarrow>
     n = SAMPLES_PER_READ \<and> length batch = SAMPLES_PER_READ"
  by (auto simp: kc_worker_pass_def length_convert split: if_splits option.splits)

lemma kc_worker_loop_swap:
  "KwSwap n batch \<in> set (snd (kc_worker_loop ps)) \<Longrightarrow>
     n = SAMPLES_PER_READ \<and> length batch = SAMPLES_PER_READ"
proof (induction ps)
  case Nil
  then show ?case by simp
next
  case (Cons p ps)
  from Cons.prems have "KwSwap n batch \<in> set (snd (kc_worker_pass p)) \<or>
      KwSwap n batch \<in> set (snd (kc_worker_loop ps))"
    unfolding kc_worker_loop_Cons_snd by (auto split: if_splits)
  then show ?case
    using kc_worker_pass_swap [of n batch p] Cons.IH by blast
qed

text \<open>
  Claim C10. Every \<^verbatim>\<open>swap\<close> the KC SDR worker calls commits exactly 16384 samples, and
  16384 converted samples were written before it; a pass whose read succeeds reads
  65536 bytes and commits the full batch.
\<close>

theorem full_batches:
  "(\<forall>e \<in> set (snd (kc_worker ps)).
      \<forall>n batch. e = KwSwap n batch \<longrightarrow> n = 16384 \<and> length batch = 16384)
   \<and> (kp_run p \<and> kp_device p \<and> kp_read p = Some readBuffer \<longrightarrow>
        snd (kc_worker_pass p) = [KwRead 65536, KwSwap 16384 (convert readBuffer)])"
proof (rule conjI)
  have "set (snd (kc_worker ps)) \<subseteq>
      set (snd (kc_worker_loop ps)) \<union> {KwLogInfo 222, KwLogInfo 255}"
    by (auto simp: kc_worker_def split: prod.splits)
  then show "\<forall>e \<in> set (snd (kc_worker ps)).
      \<forall>n batch. e = KwSwap n batch \<longrightarrow> n = 16384 \<and> length batch = 16384"
    using kc_worker_loop_swap [of _ _ ps] by (auto simp: SAMPLES_PER_READ_def)
next
  show "kp_run p \<and> kp_device p \<and> kp_read p = Some readBuffer \<longrightarrow>
        snd (kc_worker_pass p) = [KwRead 65536, KwSwap 16384 (convert readBuffer)]"
    by (simp add: kc_worker_pass_def SAMPLES_PER_READ_def BYTES_PER_READ_def)
qed

theorem full_batches_witness:
  "KwSwap 16384 (convert (\<lambda>k. word_of_nat k)) \<in> set (snd (kc_worker [kc_pass_data]))
   \<and> length (convert (\<lambda>k. word_of_nat k)) = 16384
   \<and> snd (kc_worker_pass kc_pass_data) =
       [KwRead 65536, KwSwap 16384 (convert (\<lambda>k. word_of_nat k))]"
proof -
  have 1: "snd (kc_worker_pass kc_pass_data) =
       [KwRead 65536, KwSwap 16384 (convert (\<lambda>k. word_of_nat k))]"
    using full_batches [of "[kc_pass_data]" kc_pass_data "\<lambda>k. word_of_nat k"]
    by (simp add: kc_pass_data_def)
  have 2: "KwSwap 16384 (convert (\<lambda>k. word_of_nat k)) \<in> set (snd (kc_worker [kc_pass_data]))"
    by (simp add: kc_worker_def kc_worker_pass_def kc_pass_data_def SAMPLES_PER_READ_def)
  from 2 full_batches [of "[kc_pass_data]" kc_pass_data "\<lambda>k. word_of_nat k"]
  have 3: "length (convert (\<lambda>k. word_of_nat k)) = 16384"
    by blast
  from 1 2 3 show ?thesis by simp
qed

section \<open>Sample normalization\<close>

lemma round_half_even_error: "\<bar>of_int (round_half_even y) - y\<bar> \<le> 1 / 2"
proof -
  have "of_int \<lfloor>y\<rfloor> \<le> y" "y < of_int \<lfloor>y\<rfloor> + 1"
    by linarith+
  then show ?thesis
    by (auto simp: round_half_even_def Let_def)
qed

lemma find_upto_first:
  assumes "a \<le> c" "c \<le> b" "P c"
  shows "\<exists>e. find P [a..b] = Some e \<and> e \<le> c"
proof -
  have len: "length [a..b] = nat (b - a + 1)" by simp
  have nth: "\<And>k. k < nat (b - a + 1) \<Longrightarrow> [a..b] ! k = a + int k"
    by (rule nth_upto) linarith
  have "c \<in> set [a..b]" using assms by simp
  with assms(3) have "find P [a..b] \<noteq> None"
    unfolding find_None_iff by blast
  then obtain e where e: "find P [a..b] = Some e" by blast
  then obtain i where i: "i < nat (b - a + 1)" "e = [a..b] ! i" "\<forall>j<i. \<not> P ([a..b] ! j)"
    unfolding find_Some_iff len by blast
  have "i \<le> nat (c - a)"
  proof (rule ccontr)
    assume "\<not> i \<le> nat (c - a)"
    then have lt: "nat (c - a) < i" by simp
    with i(3) have "\<not> P ([a..b] ! nat (c - a))" by blast
    moreover have "[a..b] ! nat (c - a) = c"
      using nth [of "nat (c - a)"] lt i(1) assms by simp
    ultimately show False using assms(3) by simp
  qed
  with i(1,2) assms have "e \<le> c" by (simp add: nth)
  with e show ?thesis by blast
qed

lemma float32_exponent_small:
  assumes "\<bar>x\<bar> < 2"
  shows "float32_exponent x \<le> 0"
proof -
  have P0: "\<bar>x\<bar> < 2 powi (0 + 1)" using assms by simp
  have "\<exists>e. find (\<lambda>e. \<bar>x\<bar> < 2 powi (e + 1)) [- 126 .. 127] = Some e \<and> e \<le> 0"
  proof (rule find_upto_first [where P = "\<lambda>e. \<bar>x\<bar> < 2 powi (e + 1)"])
    show "- 126 \<le> (0::int)" by simp
    show "(0::int) \<le> 127" by simp
    show "\<bar>x\<bar> < 2 powi (0 + 1)" by (rule P0)
  qed
  then obtain e where "find (\<lambda>e. \<bar>x\<bar> < 2 powi (e + 1)) [- 126 .. 127] = Some e" "e \<le> 0"
    by blast
  then show ?thesis by (simp only: float32_exponent_def option.case)
qed


lemma float32_round_error:
  assumes "\<bar>x\<bar> < 2"
  shows "\<bar>float32_round x - x\<bar> \<le> 1 / 2 ^ 24"
proof -
  define u :: real where "u = 2 powi (float32_exponent x - 23)"
  have upos: "0 < u" by (simp add: u_def)
  have "float32_exponent x - 23 \<le> - 23"
    using float32_exponent_small [OF assms] by simp
  then have "u \<le> 2 powi (- 23)"
    unfolding u_def by (intro power_int_increasing) simp_all
  then have ule: "u \<le> 1 / 2 ^ 23"
    by (simp add: power_int_minus field_simps)
  have fr: "float32_round x = of_int (round_half_even (x / u)) * u"
    by (simp add: float32_round_def u_def Let_def)
  have "x = (x / u) * u" using upos by simp
  then have "float32_round x - x = (of_int (round_half_even (x / u)) - x / u) * u"
    unfolding fr by (simp add: left_diff_distrib)
  then have "\<bar>float32_round x - x\<bar> = \<bar>of_int (round_half_even (x / u)) - x / u\<bar> * u"
    using upos by (simp add: abs_mult)
  also have "\<dots> \<le> (1 / 2) * u"
    using round_half_even_error [of "x / u"] upos by (intro mult_right_mono) simp_all
  also have "\<dots> \<le> 1 / 2 ^ 24"
    using ule by simp
  finally show ?thesis .
qed

lemma find_upto_eq:
  assumes "a \<le> c" "c \<le> b" "P c" "\<And>e. a \<le> e \<Longrightarrow> e < c \<Longrightarrow> \<not> P e"
  shows "find P [a..b] = Some c"
proof -
  from find_upto_first [of a c b P] assms(1-3) obtain e where
    e: "find P [a..b] = Some e" "e \<le> c"
    by blast
  from e(1) have "P e" "e \<in> set [a..b]"
    unfolding find_Some_iff by auto
  then have "a \<le> e" "P e" by simp_all
  with assms(4) [of e] e(2) have "e = c" by force
  with e(1) show ?thesis by simp
qed

lemma float32_exponent_eq:
  assumes "- 126 \<le> c" "c \<le> 127" "2 powi c \<le> \<bar>x\<bar>" "\<bar>x\<bar> < 2 powi (c + 1)"
  shows "float32_exponent x = c"
proof -
  have "find (\<lambda>e. \<bar>x\<bar> < 2 powi (e + 1)) [- 126 .. 127] = Some c"
  proof (rule find_upto_eq)
    show "- 126 \<le> c" "c \<le> 127" "\<bar>x\<bar> < 2 powi (c + 1)"
      by (rule assms)+
  next
    fix e :: int
    assume "e < c"
    then have "(2::real) powi (e + 1) \<le> 2 powi c"
      by (intro power_int_increasing) simp_all
    with assms(3) show "\<not> \<bar>x\<bar> < 2 powi (e + 1)"
      by simp
  qed
  then show ?thesis by (simp only: float32_exponent_def option.case)
qed

lemma float32_round_eq:
  assumes "- 126 \<le> c" "c \<le> 127" "2 powi c \<le> \<bar>x\<bar>" "\<bar>x\<bar> < 2 powi (c + 1)"
  shows "float32_round x = of_int (round_half_even (x / 2 powi (c - 23))) * 2 powi (c - 23)"
  by (simp only: float32_round_def float32_exponent_eq [OF assms] Let_def)

lemma float32_round_zero: "float32_round 0 = 0"
  by (simp add: float32_round_def round_half_even_def)

lemma scale_value: "scale = 32769 / 1073741824"
proof -
  have "float32_round (1 / 32767) =
      of_int (round_half_even ((1 / 32767) / 2 powi (- 15 - 23))) * 2 powi (- 15 - 23)"
    by (rule float32_round_eq) (simp_all add: power_int_minus)
  also have "\<dots> = 32769 / 1073741824"
    by (simp add: round_half_even_def power_int_minus Let_def)
  finally show ?thesis by (simp only: scale_def)
qed


lemma normalize_max: "normalize 32767 = 1"
proof -
  have s: "real_of_int (sint (32767 :: 16 word)) * scale = 1073741823 / 1073741824"
    by (simp add: scale_value)
  have "float32_round (1073741823 / 1073741824) =
      of_int (round_half_even ((1073741823 / 1073741824) / 2 powi (- 1 - 23))) * 2 powi (- 1 - 23)"
    by (rule float32_round_eq) (simp_all add: power_int_minus)
  also have "\<dots> = 1"
    by (simp add: round_half_even_def power_int_minus Let_def)
  finally show ?thesis by (simp only: normalize_def s)
qed

lemma normalize_min: "normalize (- 32768) = - (32769 / 32768)"
proof -
  have s: "real_of_int (sint (- 32768 :: 16 word)) * scale = - (32769 / 32768)"
    by (simp add: scale_value)
  have "float32_round (- (32769 / 32768)) =
      of_int (round_half_even ((- (32769 / 32768)) / 2 powi (0 - 23))) * 2 powi (0 - 23)"
    by (rule float32_round_eq) (simp_all add: power_int_minus)
  also have "\<dots> = - (32769 / 32768)"
    by (simp add: round_half_even_def power_int_minus Let_def)
  finally show ?thesis by (simp only: normalize_def s)
qed

lemma normalize_zero: "normalize 0 = 0"
  by (simp add: normalize_def float32_round_zero)

lemma abs_real_of_int_le: "\<bar>i\<bar> \<le> 32768 \<Longrightarrow> \<bar>real_of_int i\<bar> \<le> 32768"
  by simp

lemma sint16_bound: "\<bar>real_of_int (sint (w :: 16 word))\<bar> \<le> 32768"
proof -
  have "- (2 ^ 15) \<le> sint w" "sint w < 2 ^ 15"
    using sint_ge [of w] sint_lt [of w] by simp_all
  then have "\<bar>sint w\<bar> \<le> 32768" by simp
  then show ?thesis by (rule abs_real_of_int_le)
qed

lemma normalize_linear: "\<bar>normalize w - real_of_int (sint w) / 32767\<bar> \<le> 1 / 2 ^ 23"
proof -
  define v where "v = real_of_int (sint w)"
  have v: "\<bar>v\<bar> \<le> 32768"
    unfolding v_def by (rule sint16_bound)
  have "\<bar>v * scale\<bar> = \<bar>v\<bar> * (32769 / 1073741824)"
    by (simp add: scale_value abs_mult)
  also have "\<dots> \<le> 32768 * (32769 / 1073741824)"
    using v by (intro mult_right_mono) simp_all
  finally have small: "\<bar>v * scale\<bar> < 2" by simp
  have 1: "\<bar>normalize w - v * scale\<bar> \<le> 1 / 2 ^ 24"
    unfolding normalize_def v_def [symmetric] using small by (rule float32_round_error)
  have "v * scale - v / 32767 = - v / (32767 * 1073741824)"
    by (simp add: scale_value field_simps)
  then have "\<bar>v * scale - v / 32767\<bar> = \<bar>v\<bar> / (32767 * 1073741824)"
    by simp
  also have "\<dots> \<le> 32768 / (32767 * 1073741824)"
    using v by (intro divide_right_mono) simp_all
  also have "\<dots> \<le> 1 / 2 ^ 24"
    by simp
  finally have 2: "\<bar>v * scale - v / 32767\<bar> \<le> 1 / 2 ^ 24" .
  have "\<bar>normalize w - v / 32767\<bar> \<le> \<bar>normalize w - v * scale\<bar> + \<bar>v * scale - v / 32767\<bar>"
    by simp
  also have "\<dots> \<le> 1 / 2 ^ 24 + 1 / 2 ^ 24"
    using 1 2 by (rule add_mono)
  also have "\<dots> = 1 / 2 ^ 23"
    by simp
  finally show ?thesis
    unfolding v_def .
qed

lemma convert_nth:
  "i < SAMPLES_PER_READ \<Longrightarrow>
     convert readBuffer ! i = (normalize (readBuffer (i * 2)), normalize (readBuffer (i * 2 + 1)))"
  by (simp add: convert_def)

text \<open>
  Claim C6. The worker converts every raw 16-bit value with the same function
  \<open>normalize\<close>, whatever the content of the buffer: sample \<open>i\<close> of the batch is the pair of
  the normalized values at positions \<open>2 * i\<close> and \<open>2 * i + 1\<close>. The function is the linear
  map \<open>v / 32767\<close> up to single-precision rounding (an error of at most \<open>2 ^ -23\<close>). It
  maps 32767 to exactly 1, \<open>- 32768\<close> to \<open>- 1 - 2 ^ -15\<close>, which is within one quantization
  step \<open>1 / 32767\<close> of \<open>- 1\<close>, and 0 to exactly 0.
\<close>

theorem normalization:
  "normalize 32767 = 1
   \<and> \<bar>normalize 32767 - 1\<bar> \<le> 1 / 32767
   \<and> normalize (- 32768) = - (32769 / 32768)
   \<and> \<bar>normalize (- 32768) - (- 1)\<bar> \<le> 1 / 32767
   \<and> normalize 0 = 0
   \<and> \<bar>normalize w - real_of_int (sint w) / 32767\<bar> \<le> 1 / 2 ^ 23
   \<and> (i < SAMPLES_PER_READ \<longrightarrow>
        convert readBuffer ! i =
          (normalize (readBuffer (i * 2)), normalize (readBuffer (i * 2 + 1))))"
  using normalize_linear [of w] convert_nth [of i readBuffer]
  by (simp add: normalize_max normalize_min normalize_zero)

theorem normalization_witness:
  "0 < SAMPLES_PER_READ
   \<and> convert (\<lambda>k. word_of_nat k) ! 0 = (normalize 0, normalize 1)
   \<and> \<bar>normalize 1 - 1 / 32767\<bar> \<le> 1 / 2 ^ 23"
  using normalization [of 1 0 "\<lambda>k. word_of_nat k"]
  by (simp add: SAMPLES_PER_READ_def)

end
